theory Spec2Isabelle
  imports Main
begin

section \<open>mock-ease: the MockServer builder of \<^verbatim>\<open>lib/mock-ease.js\<close>\<close>

text \<open>
  The development follows \<^verbatim>\<open>src/lib/mock-ease.js\<close> (the compiled form of the
  TypeScript class \<^verbatim>\<open>MockServer\<close>). The builder's methods mutate \<^verbatim>\<open>this\<close> and
  return it; here each takes the server and returns the updated one. A handler closure is
  kept as data (the values it captured) and is run by \<open>run_handler\<close>, which receives the
  server as it is when the request arrives, since the closure reads \<^verbatim>\<open>this._delay\<close>
  through the live object.

  The repository also holds an older copy of the class, without delays, in which the
  binders call the producer themselves; the class modelled here is the later one, to
  which the TypeScript source with delays and the declaration file belong.

  JavaScript numbers are modelled by \<open>int\<close> (so \<^verbatim>\<open>NaN\<close> and fractions are left out) and
  an optional argument by \<open>option\<close> (\<open>None\<close> is \<^verbatim>\<open>undefined\<close>). An array is a list; the
  language's bound on the length of an array is modelled (\<^verbatim>\<open>Array.from\<close> throws a
  \<^verbatim>\<open>RangeError\<close> beyond it), the memory of the machine is not.

  What belongs to the framework and the platform and is not in the repository is a
  parameter: whether a route's pattern matches a request, whether a request's path lies
  under a mount path, whether the JSON parser accepts a request's body, and
  \<^verbatim>\<open>path.join\<close>.
\<close>

subsection \<open>Values, responses and effects\<close>

datatype json =
    JNull
  | JBool bool
  | JNum int
  | JStr string
  | JArr "json list"
  | JObj "(string \<times> json) list"

datatype http_method = GET | POST | PUT | DELETE | PATCH

text \<open>What \<^verbatim>\<open>res.status(code).json(value)\<close> writes.\<close>

record response =
  status :: nat
  body :: json

text \<open>
  What a handler does with the response object: it either writes the response during the
  call (\<open>Sent\<close>), or calls \<^verbatim>\<open>setTimeout(callback, delay)\<close> with a callback that writes
  it (\<open>SetTimeout\<close>, which records the second argument exactly as it is passed).
\<close>

datatype effect =
    Sent response
  | SetTimeout "int option" response

fun written :: "effect \<Rightarrow> response" where
  "written (Sent r) = r"
| "written (SetTimeout d r) = r"

text \<open>
  A schema producer is a zero-argument function with possible side effects: it maps the
  state of the world to either a thrown value (\<open>Inl\<close>) or the produced value (\<open>Inr\<close>),
  and the new state.
\<close>

type_synonym 's producer = "'s \<Rightarrow> (json + json) \<times> 's"

subsection \<open>The server object\<close>

text \<open>
  The closures passed to \<^verbatim>\<open>router.get\<close>, \<^verbatim>\<open>router.post\<close>, ... with the variables they
  capture. The closures of POST, PUT, DELETE and PATCH have the same text.
\<close>

datatype 's handler =
    GETHandler "'s producer" "int option" "int option"
  | PlainHandler "'s producer" "int option"

text \<open>
  A layer of the router's stack: the middleware installed by \<^verbatim>\<open>EnableAuth\<close> (header
  key and token), or a route (method, pattern, handler).
\<close>

datatype 's layer =
    Gate string string
  | RouteLayer http_method string "'s handler"

text \<open>
  A layer of the application's stack: a middleware function with its name, or the router
  mounted by \<^verbatim>\<open>Start\<close> at a path. The class registers no route directly on the
  application.
\<close>

datatype app_layer =
    AppMiddleware string
  | MountedRouter string

text \<open>
  The fields of \<^verbatim>\<open>MockServer\<close>; \<open>p_routePrefix\<close> and \<open>p_delay\<close> are the private
  fields \<^verbatim>\<open>_routePrefix\<close> and \<^verbatim>\<open>_delay\<close>.
\<close>

record 's MockServer =
  serverName :: string
  server :: "app_layer list"
  router :: "'s layer list"
  p_routePrefix :: string
  p_delay :: int

subsection \<open>Construction and configuration\<close>

text \<open>\<^verbatim>\<open>serverName || 'Mock Server'\<close>: \<^verbatim>\<open>undefined\<close> and the empty string are falsy.\<close>

definition name_or_default :: "string option \<Rightarrow> string" where
  "name_or_default name =
     (case name of
        None \<Rightarrow> ''Mock Server''
      | Some n \<Rightarrow> if n = [] then ''Mock Server'' else n)"

definition CreateNewServer :: "string option \<Rightarrow> 's MockServer" where
  "CreateNewServer name =
     \<lparr> serverName = name_or_default name,
       server = [AppMiddleware ''query'', AppMiddleware ''expressInit'',
                 AppMiddleware ''jsonParser''],
       router = [],
       p_routePrefix = [],
       p_delay = 0 \<rparr>"

definition SetDelay :: "int \<Rightarrow> 's MockServer \<Rightarrow> 's MockServer" where
  "SetDelay delay this = this\<lparr>p_delay := delay\<rparr>"

definition SetRoutePrefix :: "string \<Rightarrow> 's MockServer \<Rightarrow> 's MockServer" where
  "SetRoutePrefix prefix this = this\<lparr>p_routePrefix := prefix\<rparr>"

text \<open>\<^verbatim>\<open>headerKey ?? 'authorization'\<close>, also the parameter's default.\<close>

definition header_key :: "string option \<Rightarrow> string" where
  "header_key headerKey = (case headerKey of None \<Rightarrow> ''authorization'' | Some k \<Rightarrow> k)"

definition EnableAuth :: "string \<Rightarrow> string option \<Rightarrow> 's MockServer \<Rightarrow> 's MockServer" where
  "EnableAuth dummyToken headerKey this =
     this\<lparr>router := router this @ [Gate (header_key headerKey) dummyToken]\<rparr>"

subsection \<open>Binding routes\<close>

definition BindNewGETRoute ::
  "string \<Rightarrow> 's producer \<Rightarrow> int option \<Rightarrow> int option \<Rightarrow> 's MockServer \<Rightarrow> 's MockServer" where
  "BindNewGETRoute route responseSchema maxResults delay this =
     this\<lparr>router := router this @ [RouteLayer GET route (GETHandler responseSchema maxResults delay)]\<rparr>"

definition BindNewPOSTRoute ::
  "string \<Rightarrow> 's producer \<Rightarrow> int option \<Rightarrow> 's MockServer \<Rightarrow> 's MockServer" where
  "BindNewPOSTRoute route responseSchema delay this =
     this\<lparr>router := router this @ [RouteLayer POST route (PlainHandler responseSchema delay)]\<rparr>"

definition BindNewPUTRoute ::
  "string \<Rightarrow> 's producer \<Rightarrow> int option \<Rightarrow> 's MockServer \<Rightarrow> 's MockServer" where
  "BindNewPUTRoute route responseSchema delay this =
     this\<lparr>router := router this @ [RouteLayer PUT route (PlainHandler responseSchema delay)]\<rparr>"

definition BindNewDELETERoute ::
  "string \<Rightarrow> 's producer \<Rightarrow> int option \<Rightarrow> 's MockServer \<Rightarrow> 's MockServer" where
  "BindNewDELETERoute route responseSchema delay this =
     this\<lparr>router := router this @ [RouteLayer DELETE route (PlainHandler responseSchema delay)]\<rparr>"

definition BindNewPATCHRoute ::
  "string \<Rightarrow> 's producer \<Rightarrow> int option \<Rightarrow> 's MockServer \<Rightarrow> 's MockServer" where
  "BindNewPATCHRoute route responseSchema delay this =
     this\<lparr>router := router this @ [RouteLayer PATCH route (PlainHandler responseSchema delay)]\<rparr>"

definition BindCrudRoutes ::
  "string \<Rightarrow> 's producer \<Rightarrow> int option \<Rightarrow> int option \<Rightarrow> 's MockServer \<Rightarrow> 's MockServer" where
  "BindCrudRoutes moduleName schema maxResults delay this =
     BindNewPATCHRoute (''/'' @ moduleName @ ''/patch-update'') schema delay
       (BindNewDELETERoute (''/'' @ moduleName @ ''/delete'') schema delay
         (BindNewPUTRoute (''/'' @ moduleName @ ''/update'') schema delay
           (BindNewPOSTRoute (''/'' @ moduleName @ ''/create'') schema delay
             (BindNewGETRoute (''/'' @ moduleName) schema maxResults delay this))))"

subsection \<open>Handlers\<close>

text \<open>Truthiness of an optional number: \<^verbatim>\<open>undefined\<close> and \<^verbatim>\<open>0\<close> are falsy.\<close>

definition truthy :: "int option \<Rightarrow> bool" where
  "truthy x = (case x of None \<Rightarrow> False | Some n \<Rightarrow> n \<noteq> 0)"

definition SendResponseWithDelay :: "'s MockServer \<Rightarrow> json \<Rightarrow> int option \<Rightarrow> effect" where
  "SendResponseWithDelay this response delay =
     (if truthy delay \<or> p_delay this \<noteq> 0
      then SetTimeout delay \<lparr>status = 200, body = response\<rparr>
      else Sent \<lparr>status = 200, body = response\<rparr>)"

text \<open>
  \<^verbatim>\<open>Array.from({ length: n }, () => responseSchema())\<close>. The length of the array-like is
  the number clamped to the range from 0 to \<open>2\<^sup>5\<^sup>3 - 1\<close>. The array is created with that
  length before the callback runs for the first time, and the creation throws a
  \<^verbatim>\<open>RangeError\<close> when the length is above \<open>2\<^sup>3\<^sup>2 - 1\<close>. Then the callback runs once for
  each index, in order; a throw ends the loop. A thrown value is kept as a JSON value,
  the \<^verbatim>\<open>RangeError\<close> as its message.
\<close>

definition to_length :: "int option \<Rightarrow> nat" where
  "to_length x = (case x of None \<Rightarrow> 0 | Some n \<Rightarrow> min (nat n) (2 ^ 53 - 1))"

definition RangeError :: json where
  "RangeError = JStr ''RangeError: Invalid array length''"

fun fill :: "nat \<Rightarrow> 's producer \<Rightarrow> 's \<Rightarrow> (json + json list) \<times> 's" where
  "fill 0 f w = (Inr [], w)"
| "fill (Suc k) f w =
     (case f w of
        (Inl e, w') \<Rightarrow> (Inl e, w')
      | (Inr v, w') \<Rightarrow>
          (case fill k f w' of
             (Inl e, w'') \<Rightarrow> (Inl e, w'')
           | (Inr vs, w'') \<Rightarrow> (Inr (v # vs), w'')))"

definition Array_from :: "nat \<Rightarrow> 's producer \<Rightarrow> 's \<Rightarrow> (json + json list) \<times> 's" where
  "Array_from len f w = (if 2 ^ 32 - 1 < len then (Inl RangeError, w) else fill len f w)"

text \<open>
  Running a handler closure on a request: the result is the thrown value or what the
  handler did with the response object, and the new state of the world.
\<close>

fun run_handler :: "'s MockServer \<Rightarrow> 's handler \<Rightarrow> 's \<Rightarrow> (json + effect) \<times> 's" where
  "run_handler this (GETHandler responseSchema maxResults delay) w =
     (case responseSchema w of
        (Inl e, w1) \<Rightarrow> (Inl e, w1)
      | (Inr response, w1) \<Rightarrow>
          (if truthy maxResults
           then (case Array_from (to_length maxResults) responseSchema w1 of
                   (Inl e, w2) \<Rightarrow> (Inl e, w2)
                 | (Inr rs, w2) \<Rightarrow> (Inr (SendResponseWithDelay this (JArr rs) delay), w2))
           else (Inr (SendResponseWithDelay this response delay), w1)))"
| "run_handler this (PlainHandler responseSchema delay) w =
     (case responseSchema w of
        (Inl e, w1) \<Rightarrow> (Inl e, w1)
      | (Inr response, w1) \<Rightarrow> (Inr (SendResponseWithDelay this response delay), w1))"

subsection \<open>Requests\<close>

text \<open>
  A request as the handlers of the application see it. \<^verbatim>\<open>req.headers\<close> is the dictionary
  that the platform builds from the header lines of the message: each value is stored
  under the name of its header in lower case (for a name sent more than once the first
  value is kept, as the platform does for \<^verbatim>\<open>authorization\<close>).
\<close>

record request =
  req_method :: http_method
  req_path :: string
  headers :: "string \<rightharpoonup> string"

definition lower_char :: "char \<Rightarrow> char" where
  "lower_char c =
     (if 65 \<le> (of_char c :: nat) \<and> (of_char c :: nat) \<le> 90
      then char_of ((of_char c :: nat) + 32) else c)"

definition toLowerCase :: "string \<Rightarrow> string" where
  "toLowerCase s = map lower_char s"

definition node_headers :: "(string \<times> string) list \<Rightarrow> (string \<rightharpoonup> string)" where
  "node_headers hs = map_of (map (\<lambda>(name, v). (toLowerCase name, v)) hs)"

text \<open>The request for a method, a path and the header lines as the client sent them.\<close>

definition incoming :: "http_method \<Rightarrow> string \<Rightarrow> (string \<times> string) list \<Rightarrow> request" where
  "incoming m path hs = \<lparr>req_method = m, req_path = path, headers = node_headers hs\<rparr>"

text \<open>
  The value of the header with a given name among the header lines sent; the names of
  headers do not distinguish letter case.
\<close>

definition sent_header :: "(string \<times> string) list \<Rightarrow> string \<Rightarrow> string option" where
  "sent_header hs name = node_headers hs (toLowerCase name)"

subsection \<open>The gate\<close>

datatype gate_result = Next | Reply response

definition Unauthorized :: response where
  "Unauthorized = \<lparr>status = 401, body = JObj [(''message'', JStr ''Unauthorized'')]\<rparr>"

text \<open>The middleware function that \<^verbatim>\<open>EnableAuth\<close> passes to \<^verbatim>\<open>router.use\<close>.\<close>

definition auth_gate :: "string \<Rightarrow> string \<Rightarrow> request \<Rightarrow> gate_result" where
  "auth_gate key dummyToken req =
     (if headers req key = Some (''Bearer '' @ dummyToken) \<or> headers req key = Some dummyToken
      then Next
      else Reply Unauthorized)"

subsection \<open>The framework's part\<close>

text \<open>
  The three decisions of the framework that the answer to a request depends on: whether
  a route (method and pattern) matches a request, what is left of a request's path when
  it lies under a mount path (\<open>None\<close> when it does not), and whether the JSON parser
  accepts the request's body.
\<close>

record framework =
  route_matches :: "http_method \<Rightarrow> string \<Rightarrow> request \<Rightarrow> bool"
  mount_strips :: "string \<Rightarrow> string \<Rightarrow> string option"
  json_parses :: "request \<Rightarrow> bool"

text \<open>
  What the application answers: a handler's or the gate's response, a value thrown by a
  handler (left to the framework's error page), the failure of the JSON parser (the
  framework answers 400), or nothing at all (the framework answers 404).
\<close>

datatype outcome =
    Responded effect
  | Threw json
  | ParserFailed
  | NoRoute

text \<open>
  The router offers a request to its layers in the order in which \<^verbatim>\<open>router.use\<close> and
  \<^verbatim>\<open>router.get\<close>, ... pushed them on the stack. A middleware layer takes every request and
  either passes it on or answers; a route layer takes the requests that match it, and its
  handler answers them (no handler of this class calls \<^verbatim>\<open>next\<close>).
\<close>

fun router_handle ::
  "(http_method \<Rightarrow> string \<Rightarrow> request \<Rightarrow> bool) \<Rightarrow> 's MockServer \<Rightarrow> 's layer list \<Rightarrow> request \<Rightarrow> 's
     \<Rightarrow> outcome \<times> 's" where
  "router_handle matches this [] req w = (NoRoute, w)"
| "router_handle matches this (Gate key dummyToken # ls) req w =
     (case auth_gate key dummyToken req of
        Next \<Rightarrow> router_handle matches this ls req w
      | Reply r \<Rightarrow> (Responded (Sent r), w))"
| "router_handle matches this (RouteLayer m route h # ls) req w =
     (if matches m route req
      then (case run_handler this h w of
              (Inl e, w') \<Rightarrow> (Threw e, w')
            | (Inr eff, w') \<Rightarrow> (Responded eff, w'))
      else router_handle matches this ls req w)"

text \<open>
  The application offers a request to the layers of its own stack in order: the
  middleware that the framework and the constructor installed, of which the JSON parser
  can fail, and the router wherever \<^verbatim>\<open>Start\<close> mounted it. A mounted router gets the
  requests whose path lies under its mount path, with that part of the path taken off;
  when no layer of the router answers, the application goes on with its next layer. The
  router is the live object: its stack is read when the request arrives.
\<close>

fun app_handle ::
  "framework \<Rightarrow> 's MockServer \<Rightarrow> app_layer list \<Rightarrow> request \<Rightarrow> 's \<Rightarrow> outcome \<times> 's" where
  "app_handle fw this [] req w = (NoRoute, w)"
| "app_handle fw this (AppMiddleware name # ls) req w =
     (if name = ''jsonParser'' \<and> \<not> json_parses fw req then (ParserFailed, w)
      else app_handle fw this ls req w)"
| "app_handle fw this (MountedRouter at # ls) req w =
     (case mount_strips fw at (req_path req) of
        None \<Rightarrow> app_handle fw this ls req w
      | Some rest \<Rightarrow>
          (case router_handle (route_matches fw) this (router this) (req\<lparr>req_path := rest\<rparr>) w of
             (NoRoute, w') \<Rightarrow> app_handle fw this ls req w'
           | (Responded eff, w') \<Rightarrow> (Responded eff, w')
           | (Threw e, w') \<Rightarrow> (Threw e, w')
           | (ParserFailed, w') \<Rightarrow> (ParserFailed, w')))"

definition handle_request :: "framework \<Rightarrow> 's MockServer \<Rightarrow> request \<Rightarrow> 's \<Rightarrow> outcome \<times> 's" where
  "handle_request fw this req w = app_handle fw this (server this) req w"

text \<open>
  The request as the application hands it to the router, if it does: the first mount
  under which the path lies, unless the JSON parser fails before.
\<close>

fun handed_to_router :: "framework \<Rightarrow> app_layer list \<Rightarrow> request \<Rightarrow> request option" where
  "handed_to_router fw [] req = None"
| "handed_to_router fw (AppMiddleware name # ls) req =
     (if name = ''jsonParser'' \<and> \<not> json_parses fw req then None
      else handed_to_router fw ls req)"
| "handed_to_router fw (MountedRouter at # ls) req =
     (case mount_strips fw at (req_path req) of
        None \<Rightarrow> handed_to_router fw ls req
      | Some rest \<Rightarrow> Some (req\<lparr>req_path := rest\<rparr>))"

text \<open>Whether a layer is a route that takes the request (a gate is not a route).\<close>

fun takes :: "(http_method \<Rightarrow> string \<Rightarrow> request \<Rightarrow> bool) \<Rightarrow> request \<Rightarrow> 's layer \<Rightarrow> bool" where
  "takes matches req (Gate key dummyToken) = False"
| "takes matches req (RouteLayer m route h) = matches m route req"

text \<open>
  A stand-in for the framework in the examples, where patterns are literal paths and no
  request has a body: a route matches the requests for its method and its own path, a
  path lies under a mount path that it starts with, and the parser accepts the request.
\<close>

definition exact_match :: "http_method \<Rightarrow> string \<Rightarrow> request \<Rightarrow> bool" where
  "exact_match m route req = (req_method req = m \<and> req_path req = route)"

definition strip_prefix :: "string \<Rightarrow> string \<Rightarrow> string option" where
  "strip_prefix at path =
     (if take (length at) path = at then Some (drop (length at) path) else None)"

definition literal :: framework where
  "literal = \<lparr>route_matches = exact_match, mount_strips = strip_prefix, json_parses = (\<lambda>req. True)\<rparr>"

subsection \<open>Sessions\<close>

text \<open>
  A session of the server: calls of the builder's methods and incoming requests, in the
  order in which they happen. A method of the builder changes the server object and
  nothing else; only the handling of a request runs in the world of the producers.
\<close>

datatype 's event =
    Call "'s MockServer \<Rightarrow> 's MockServer"
  | Incoming request

fun run_events ::
  "framework \<Rightarrow> 's event list \<Rightarrow> 's MockServer \<Rightarrow> 's \<Rightarrow> outcome list \<times> 's MockServer \<times> 's" where
  "run_events fw [] this w = ([], this, w)"
| "run_events fw (Call method # es) this w = run_events fw es (method this) w"
| "run_events fw (Incoming req # es) this w =
     (case handle_request fw this req w of
        (out, w') \<Rightarrow>
          (case run_events fw es this w' of
             (outs, this', w'') \<Rightarrow> (out # outs, this', w'')))"

text \<open>
  Counting the invocations of a producer: the instrumented producer carries a counter
  beside the state of the world and increments it on each call.
\<close>

definition counted :: "'s producer \<Rightarrow> ('s \<times> nat) producer" where
  "counted f = (\<lambda>(w, n). case f w of (r, w') \<Rightarrow> (r, (w', Suc n)))"

subsection \<open>Starting and the startup log\<close>

text \<open>
  \<^verbatim>\<open>Start\<close> mounts the router on the application at the prefix and listens; the log is
  written by the callback that runs once the listener is bound. A call of \<^verbatim>\<open>console\<close>
  is kept as data.
\<close>

datatype console = Log string | Group string | GroupEnd

definition Start :: "'s MockServer \<Rightarrow> 's MockServer" where
  "Start this = this\<lparr>server := server this @ [MountedRouter (p_routePrefix this)]\<rparr>"

text \<open>The method name as the framework stores it on a route.\<close>

fun method_name :: "http_method \<Rightarrow> string" where
  "method_name GET = ''get''"
| "method_name POST = ''post''"
| "method_name PUT = ''put''"
| "method_name DELETE = ''delete''"
| "method_name PATCH = ''patch''"

definition upper_char :: "char \<Rightarrow> char" where
  "upper_char c =
     (if 97 \<le> (of_char c :: nat) \<and> (of_char c :: nat) \<le> 122
      then char_of ((of_char c :: nat) - 32) else c)"

definition toUpperCase :: "string \<Rightarrow> string" where
  "toUpperCase s = map upper_char s"

definition padEnd :: "nat \<Rightarrow> char \<Rightarrow> string \<Rightarrow> string" where
  "padEnd n c s = s @ replicate (n - length s) c"

text \<open>
  \<^verbatim>\<open>join(...path).replace(/\\/g, '/')\<close>; \<open>join\<close> is the platform's \<^verbatim>\<open>path.join\<close>, a
  parameter here.
\<close>

definition joinPath :: "(string list \<Rightarrow> string) \<Rightarrow> string list \<Rightarrow> string" where
  "joinPath join path = map (\<lambda>c. if c = CHR 0x5C then CHR ''/'' else c) (join path)"

text \<open>The decimal digits of a port number, for the template literal.\<close>

fun string_of_nat :: "nat \<Rightarrow> string" where
  "string_of_nat n =
     (if n < 10 then [char_of (48 + n)]
      else string_of_nat (n div 10) @ [char_of (48 + n mod 10)])"

declare string_of_nat.simps [simp del]

definition route_line :: "(string list \<Rightarrow> string) \<Rightarrow> string \<Rightarrow> http_method \<Rightarrow> string \<Rightarrow> string" where
  "route_line join prefix m route =
     padEnd 6 CHR '' '' (toUpperCase (method_name m)) @ '' -  '' @ joinPath join [prefix, route]"

fun log_handler :: "(string list \<Rightarrow> string) \<Rightarrow> string \<Rightarrow> 's layer \<Rightarrow> console list" where
  "log_handler join prefix (Gate key dummyToken) = []"
| "log_handler join prefix (RouteLayer m route h) = [Log (route_line join prefix m route)]"

fun log_middleware :: "(string list \<Rightarrow> string) \<Rightarrow> 's MockServer \<Rightarrow> app_layer \<Rightarrow> console list" where
  "log_middleware join this (AppMiddleware name) = []"
| "log_middleware join this (MountedRouter at) =
     concat (map (log_handler join (p_routePrefix this)) (router this))"

definition logRoutes :: "(string list \<Rightarrow> string) \<Rightarrow> 's MockServer \<Rightarrow> console list" where
  "logRoutes join this =
     Group (''Registered Routes By '' @ serverName this @ '':'')
       # concat (map (log_middleware join this) (server this))
       @ [Log [], GroupEnd]"

text \<open>The callback of \<^verbatim>\<open>listen\<close>; the port defaults to 3005.\<close>

definition port_or_default :: "nat option \<Rightarrow> nat" where
  "port_or_default port = (case port of None \<Rightarrow> 3005 | Some p \<Rightarrow> p)"

definition on_listening :: "(string list \<Rightarrow> string) \<Rightarrow> nat option \<Rightarrow> 's MockServer \<Rightarrow> console list" where
  "on_listening join port this =
     Log (serverName this @ '' running at http://localhost:'' @ string_of_nat (port_or_default port))
       # logRoutes join this"

text \<open>The bindings of a router, in the order of its stack.\<close>

fun bindings :: "'s layer list \<Rightarrow> (http_method \<times> string) list" where
  "bindings [] = []"
| "bindings (Gate key dummyToken # ls) = bindings ls"
| "bindings (RouteLayer m route h # ls) = (m, route) # bindings ls"

fun is_router :: "app_layer \<Rightarrow> bool" where
  "is_router (AppMiddleware name) = False"
| "is_router (MountedRouter at) = True"

text \<open>How many times the router is mounted on the application: once for each \<^verbatim>\<open>Start\<close>.\<close>

definition mounts :: "'s MockServer \<Rightarrow> nat" where
  "mounts this = length (filter is_router (server this))"

subsection \<open>Sequences of calls of a producer\<close>

text \<open>
  The state of the world after \<open>k\<close> calls of a producer, and the value that call number
  \<open>i\<close> (counted from 0) produces when the calls start in state \<open>w\<close>.
\<close>

fun after_calls :: "'s producer \<Rightarrow> nat \<Rightarrow> 's \<Rightarrow> 's" where
  "after_calls f 0 w = w"
| "after_calls f (Suc k) w = after_calls f k (snd (f w))"

definition produced :: "'s producer \<Rightarrow> 's \<Rightarrow> nat \<Rightarrow> json" where
  "produced f w i = projr (fst (f (after_calls f i w)))"

text \<open>
  A producer with a side effect, for examples: it returns the number of calls made
  before and counts one more.
\<close>

definition tick :: "nat producer" where
  "tick w = (Inr (JNum (int w)), Suc w)"

section \<open>Auxiliary facts\<close>

subsection \<open>The router's stack\<close>

lemma router_handle_append:
  "router_handle matches this pre req w = (NoRoute, w) \<Longrightarrow>
   router_handle matches this (pre @ ls) req w = router_handle matches this ls req w"
proof (induction pre)
  case Nil
  then show ?case by simp
next
  case (Cons l pre)
  then show ?case
    by (cases l) (auto split: gate_result.splits if_splits prod.splits sum.splits)
qed

lemma router_handle_not_ParserFailed:
  "fst (router_handle matches this ls req w) \<noteq> ParserFailed"
proof (induction ls)
  case Nil
  then show ?case by simp
next
  case (Cons l ls)
  then show ?case
    by (cases l) (auto split: gate_result.splits prod.splits sum.splits)
qed

text \<open>A handler reads nothing of the server but its delay.\<close>

lemma SendResponseWithDelay_cong:
  "p_delay this = p_delay this' \<Longrightarrow>
   SendResponseWithDelay this response delay = SendResponseWithDelay this' response delay"
  by (simp add: SendResponseWithDelay_def)

lemma run_handler_cong:
  "p_delay this = p_delay this' \<Longrightarrow> run_handler this h w = run_handler this' h w"
  by (cases h) (auto simp: SendResponseWithDelay_def split: prod.splits sum.splits)

lemma router_handle_cong:
  "p_delay this = p_delay this' \<Longrightarrow>
   router_handle matches this ls req w = router_handle matches this' ls req w"
proof (induction ls)
  case Nil
  then show ?case by simp
next
  case (Cons l ls)
  then show ?case
    by (cases l) (auto simp: run_handler_cong[of this this'] split: gate_result.splits)
qed

lemma bindings_append: "bindings (ls @ ls') = bindings ls @ bindings ls'"
  by (induction ls rule: bindings.induct) simp_all

text \<open>Each binder adds one binding at the end; the configuration methods add none.\<close>

lemma bindings_binders:
  "bindings (router (BindNewGETRoute route f maxResults delay this)) = bindings (router this) @ [(GET, route)]"
  "bindings (router (BindNewPOSTRoute route f delay this)) = bindings (router this) @ [(POST, route)]"
  "bindings (router (BindNewPUTRoute route f delay this)) = bindings (router this) @ [(PUT, route)]"
  "bindings (router (BindNewDELETERoute route f delay this)) = bindings (router this) @ [(DELETE, route)]"
  "bindings (router (BindNewPATCHRoute route f delay this)) = bindings (router this) @ [(PATCH, route)]"
  "bindings (router (EnableAuth dummyToken headerKey this)) = bindings (router this)"
  "bindings (router (SetDelay d this)) = bindings (router this)"
  "bindings (router (SetRoutePrefix prefix this)) = bindings (router this)"
  by (simp_all add: bindings_append BindNewGETRoute_def BindNewPOSTRoute_def BindNewPUTRoute_def
      BindNewDELETERoute_def BindNewPATCHRoute_def EnableAuth_def SetDelay_def SetRoutePrefix_def)

subsection \<open>The application's stack\<close>

text \<open>
  When the application hands the request to the router and a layer of the router
  answers (or its handler throws), that is the application's answer.
\<close>

lemma app_handle_handed:
  assumes "handed_to_router fw ls req = Some req'"
    and "router_handle (route_matches fw) this (router this) req' w = (out, w')"
    and "out \<noteq> NoRoute"
  shows "app_handle fw this ls req w = (out, w')"
  using assms(1)
proof (induction ls)
  case Nil
  then show ?case by simp
next
  case (Cons l ls)
  show ?case
  proof (cases l)
    case (AppMiddleware name)
    with Cons show ?thesis by (auto split: if_splits)
  next
    case (MountedRouter at)
    show ?thesis
    proof (cases "mount_strips fw at (req_path req)")
      case None
      with Cons MountedRouter show ?thesis by simp
    next
      case (Some rest)
      with Cons.prems MountedRouter have "req' = req\<lparr>req_path := rest\<rparr>" by simp
      with assms(2,3) Some MountedRouter show ?thesis
        by (cases out) simp_all
    qed
  qed
qed

lemma handle_request_handed:
  assumes "handed_to_router fw (server this) req = Some req'"
    and "router_handle (route_matches fw) this (router this) req' w = (out, w')"
    and "out \<noteq> NoRoute"
  shows "handle_request fw this req w = (out, w')"
  using app_handle_handed[OF assms] by (simp add: handle_request_def)

text \<open>The application changes the path of a request that it hands on, nothing else.\<close>

lemma handed_to_router_headers:
  "handed_to_router fw ls req = Some req' \<Longrightarrow> headers req' = headers req"
proof (induction ls)
  case Nil
  then show ?case by simp
next
  case (Cons l ls)
  then show ?case
    by (cases l) (auto split: if_splits option.splits)
qed

text \<open>
  Two servers with the same application stack whose routers answer every request alike
  answer every request alike.
\<close>

lemma app_handle_cong:
  assumes "\<And>rest u. router_handle (route_matches fw) this (router this) (req\<lparr>req_path := rest\<rparr>) u
             = router_handle (route_matches fw) this' (router this') (req\<lparr>req_path := rest\<rparr>) u"
  shows "app_handle fw this ls req w = app_handle fw this' ls req w"
proof (induction ls arbitrary: w)
  case Nil
  then show ?case by simp
next
  case (Cons l ls)
  then show ?case
    by (cases l) (simp_all add: assms split: option.splits prod.splits outcome.splits)
qed

subsection \<open>Headers\<close>

lemma lower_char_idem: "lower_char (lower_char c) = lower_char c"
  by (simp add: lower_char_def)

lemma toLowerCase_idem: "toLowerCase (toLowerCase s) = toLowerCase s"
  by (simp add: toLowerCase_def lower_char_idem)

text \<open>Every name in \<^verbatim>\<open>req.headers\<close> is in lower case.\<close>

lemma node_headers_lower:
  "node_headers hs key = Some v \<Longrightarrow> toLowerCase key = key"
proof -
  assume "node_headers hs key = Some v"
  then have "(key, v) \<in> set (map (\<lambda>(name, v). (toLowerCase name, v)) hs)"
    unfolding node_headers_def by (rule map_of_SomeD)
  then obtain name where "key = toLowerCase name" by auto
  then show ?thesis by (simp add: toLowerCase_idem)
qed

lemma node_headers_sent:
  "toLowerCase key = key \<Longrightarrow> node_headers hs key = sent_header hs key"
  by (simp add: sent_header_def)

lemma node_headers_not_lower:
  "toLowerCase key \<noteq> key \<Longrightarrow> node_headers hs key = None"
  using node_headers_lower[of hs key] by (cases "node_headers hs key") auto

subsection \<open>Responses\<close>

lemma written_SendResponseWithDelay:
  "written (SendResponseWithDelay this response delay) = \<lparr>status = 200, body = response\<rparr>"
  by (simp add: SendResponseWithDelay_def)

text \<open>
  The three cases of \<^verbatim>\<open>SendResponseWithDelay\<close>. In the second the timer is armed
  because the server's delay is set, with the route's delay argument as its duration.
\<close>

lemma SendResponseWithDelay_cases:
  "d \<noteq> 0 \<Longrightarrow> SendResponseWithDelay this response (Some d)
                = SetTimeout (Some d) \<lparr>status = 200, body = response\<rparr>"
  "p_delay this \<noteq> 0 \<Longrightarrow> SendResponseWithDelay this response delay
                = SetTimeout delay \<lparr>status = 200, body = response\<rparr>"
  "\<not> truthy delay \<Longrightarrow> p_delay this = 0 \<Longrightarrow> SendResponseWithDelay this response delay
                = Sent \<lparr>status = 200, body = response\<rparr>"
  by (simp_all add: SendResponseWithDelay_def truthy_def)

subsection \<open>Producers\<close>

lemma produced_Suc: "produced f w (Suc i) = produced f (snd (f w)) i"
  by (simp add: produced_def)

lemma fill_total:
  "(\<And>u. \<not> isl (fst (f u))) \<Longrightarrow>
   fill k f w = (Inr (map (produced f w) [0..<k]), after_calls f k w)"
proof (induction k arbitrary: w)
  case 0
  then show ?case by simp
next
  case (Suc k)
  obtain r w' where fw: "f w = (r, w')" by (cases "f w")
  with Suc.prems[of w] obtain v where r: "r = Inr v" by (cases r) auto
  have "map (produced f w) [0..<Suc k] = produced f w 0 # map (produced f w') [0..<k]"
    using fw by (simp add: upt_conv_Cons map_Suc_upt[symmetric] produced_Suc del: upt_Suc)
  moreover have "produced f w 0 = v"
    using fw r by (simp add: produced_def)
  ultimately show ?case
    using fw r Suc.IH[OF Suc.prems, of w'] by simp
qed

lemma Array_from_total:
  "(\<And>u. \<not> isl (fst (f u))) \<Longrightarrow> k < 2 ^ 32 \<Longrightarrow>
   Array_from k f w = (Inr (map (produced f w) [0..<k]), after_calls f k w)"
  using fill_total[of f k w] by (simp add: Array_from_def)

lemma Array_from_too_long:
  "2 ^ 32 \<le> k \<Longrightarrow> Array_from k f w = (Inl RangeError, w)"
  by (simp add: Array_from_def)

text \<open>The loop, one step at a time, for lengths written as numerals.\<close>

lemma fill_unfold:
  assumes "0 < k"
  shows "fill k f w =
     (case f w of
        (Inl e, w') \<Rightarrow> (Inl e, w')
      | (Inr v, w') \<Rightarrow>
          (case fill (k - 1) f w' of
             (Inl e, w'') \<Rightarrow> (Inl e, w'')
           | (Inr vs, w'') \<Rightarrow> (Inr (v # vs), w'')))"
proof (cases k)
  case 0
  with assms show ?thesis by simp
next
  case (Suc j)
  then have "k - 1 = j" by simp
  then show ?thesis unfolding Suc by (simp only: fill.simps diff_Suc_1)
qed

lemma fst_counted: "fst (counted f (w, n)) = fst (f w)"
  by (simp add: counted_def split: prod.splits)

lemma snd_counted: "snd (counted f (w, n)) = (snd (f w), Suc n)"
  by (simp add: counted_def split: prod.splits)

lemma after_calls_counted:
  "after_calls (counted f) k (w, n) = (after_calls f k w, n + k)"
  by (induction k arbitrary: w n) (simp_all add: snd_counted)

lemma produced_counted: "produced (counted f) (w, n) i = produced f w i"
  by (simp add: produced_def after_calls_counted fst_counted)

lemma tick_never_throws: "\<not> isl (fst (tick u))"
  by (simp add: tick_def)

subsection \<open>Handlers\<close>

lemma to_length_small: "N < 2 ^ 32 \<Longrightarrow> to_length (Some (int N)) = N"
  by (simp add: to_length_def)

text \<open>
  The GET handler with a truthy \<^verbatim>\<open>maxResults\<close> within the bound, for a producer that
  never throws: the first call's value is overwritten by the array of the values of the
  calls that follow.
\<close>

lemma run_GETHandler_list:
  assumes "\<And>u. \<not> isl (fst (f u))" and "truthy maxResults" and "to_length maxResults < 2 ^ 32"
  shows "run_handler this (GETHandler f maxResults delay) w =
           (Inr (SendResponseWithDelay this
                   (JArr (map (produced f w) [1..<Suc (to_length maxResults)])) delay),
            after_calls f (Suc (to_length maxResults)) w)"
proof -
  obtain r w1 where fw: "f w = (r, w1)" by (cases "f w")
  with assms(1)[of w] obtain v where r: "r = Inr v" by (cases r) auto
  have "map (produced f w1) [0..<to_length maxResults]
          = map (produced f w) [1..<Suc (to_length maxResults)]"
    using fw by (simp add: map_Suc_upt[symmetric] produced_Suc del: upt_Suc)
  then show ?thesis
    using fw r assms(2)
      Array_from_total[where f = f and k = "to_length maxResults" and w = w1, OF assms(1) assms(3)]
    by simp
qed

lemma run_GETHandler_counted:
  assumes "\<And>u. \<not> isl (fst (schema u))" and "0 < N" and "N < 2 ^ 32"
  shows "run_handler this (GETHandler (counted schema) (Some (int N)) delay) (w, n) =
           (Inr (SendResponseWithDelay this (JArr (map (produced schema w) [1..<Suc N])) delay),
            (after_calls schema (Suc N) w, n + N + 1))"
proof -
  have nothrow: "\<not> isl (fst (counted schema u))" for u
    using assms(1)[of "fst u"] fst_counted[of schema "fst u" "snd u"] by simp
  have t: "truthy (Some (int N))" using assms(2) by (simp add: truthy_def)
  have len: "to_length (Some (int N)) = N" using assms(3) by (rule to_length_small)
  have bound: "to_length (Some (int N)) < 2 ^ 32" using assms(3) len by simp
  have vals: "map (produced (counted schema) (w, n)) [1..<Suc N] = map (produced schema w) [1..<Suc N]"
    by (simp add: produced_counted)
  have st: "after_calls (counted schema) (Suc N) (w, n) = (after_calls schema (Suc N) w, n + N + 1)"
    by (simp only: after_calls_counted) simp
  show ?thesis
    using run_GETHandler_list[where f = "counted schema" and maxResults = "Some (int N)",
        OF nothrow t bound, of this delay "(w, n)"]
    unfolding len vals st .
qed

text \<open>
  Beyond the bound the handler throws after the first call of the producer, whatever
  the producer returns next.
\<close>

lemma run_GETHandler_too_long:
  assumes "f w = (Inr v, w1)" and "2 ^ 32 \<le> N"
  shows "run_handler this (GETHandler f (Some (int N)) delay) w = (Inl RangeError, w1)"
proof -
  have "2 ^ 32 \<le> to_length (Some (int N))"
    using assms(2) by (simp add: to_length_def)
  moreover have "truthy (Some (int N))" using assms(2) by (auto simp: truthy_def)
  ultimately show ?thesis
    using assms(1) by (simp add: Array_from_too_long)
qed

lemma run_handler_single:
  assumes "h = GETHandler f None delay \<or> h = PlainHandler f delay"
  shows "run_handler this h w =
           (case f w of
              (Inl e, w1) \<Rightarrow> (Inl e, w1)
            | (Inr v, w1) \<Rightarrow> (Inr (SendResponseWithDelay this v delay), w1))"
  using assms by (auto simp: truthy_def split: prod.splits sum.splits)

subsection \<open>The startup log\<close>

lemma log_handlers_bindings:
  "concat (map (log_handler join prefix) ls)
     = map (\<lambda>(m, route). Log (route_line join prefix m route)) (bindings ls)"
  by (induction ls rule: bindings.induct) simp_all

lemma log_middleware_mounts:
  "concat (map (log_middleware join this) xs)
     = concat (replicate (length (filter is_router xs))
         (concat (map (log_handler join (p_routePrefix this)) (router this))))"
proof (induction xs)
  case Nil
  then show ?case by simp
next
  case (Cons x xs)
  then show ?case by (cases x) simp_all
qed

text \<open>A new server is not mounted, \<^verbatim>\<open>Start\<close> mounts it once more, nothing else does.\<close>

lemma mounts_builder:
  "mounts (CreateNewServer name) = 0"
  "mounts (Start this) = Suc (mounts this)"
  "mounts (BindNewGETRoute route f maxResults delay this) = mounts this"
  "mounts (BindNewPOSTRoute route f delay this) = mounts this"
  "mounts (BindNewPUTRoute route f delay this) = mounts this"
  "mounts (BindNewDELETERoute route f delay this) = mounts this"
  "mounts (BindNewPATCHRoute route f delay this) = mounts this"
  "mounts (BindCrudRoutes moduleName f maxResults delay this) = mounts this"
  "mounts (EnableAuth dummyToken headerKey this) = mounts this"
  "mounts (SetDelay d this) = mounts this"
  "mounts (SetRoutePrefix prefix this) = mounts this"
  by (simp_all add: mounts_def CreateNewServer_def Start_def BindCrudRoutes_def
      BindNewGETRoute_def BindNewPOSTRoute_def BindNewPUTRoute_def BindNewDELETERoute_def
      BindNewPATCHRoute_def EnableAuth_def SetDelay_def SetRoutePrefix_def)

text \<open>The method column of a line, for each method.\<close>

lemma method_column:
  "padEnd 6 CHR '' '' (toUpperCase (method_name GET)) = ''GET   ''"
  "padEnd 6 CHR '' '' (toUpperCase (method_name POST)) = ''POST  ''"
  "padEnd 6 CHR '' '' (toUpperCase (method_name PUT)) = ''PUT   ''"
  "padEnd 6 CHR '' '' (toUpperCase (method_name DELETE)) = ''DELETE''"
  "padEnd 6 CHR '' '' (toUpperCase (method_name PATCH)) = ''PATCH ''"
  by code_simp+

section \<open>The claims\<close>

subsection \<open>C1: which delay a response waits for\<close>

text \<open>
  Claim C1, second case: with no route-level delay and a server-level delay of \<open>d > 0\<close>
  set through \<^verbatim>\<open>SetDelay\<close>, the response is to be deferred by \<open>d\<close> milliseconds. The
  code arms the timer in that case, but with the route's own delay argument as the
  duration: after \<^verbatim>\<open>SetDelay(500)\<close> and a GET route bound without a delay, a request is
  answered through \<^verbatim>\<open>setTimeout(callback, undefined)\<close>, and the 500 is not the timer's
  duration.
\<close>

theorem server_delay_is_not_the_timer_delay:
  "handle_request literal
     (Start (BindNewGETRoute ''/slow'' tick None None (SetDelay 500 (CreateNewServer None))))
     (incoming GET ''/slow'' []) 0
   = (Responded (SetTimeout None \<lparr>status = 200, body = JNum 0\<rparr>), 1)"
  by (simp add: handle_request_def Start_def BindNewGETRoute_def SetDelay_def CreateNewServer_def
      literal_def strip_prefix_def incoming_def exact_match_def tick_def truthy_def
      SendResponseWithDelay_def)

subsection \<open>C2: a GET route with \<^verbatim>\<open>maxResults\<close>\<close>

text \<open>
  Claim C2 as stated: one request to a GET route bound with \<^verbatim>\<open>maxResults = N > 0\<close>
  invokes the producer exactly \<open>N\<close> times. It fails for \<open>N = 2\<close>: the counter of the
  instrumented producer stands at 3 after one request, and the values returned are those
  of the second and third call.
\<close>

theorem GET_maxResults_invocations_counterexample:
  "handle_request literal
     (Start (BindNewGETRoute ''/items'' (counted tick) (Some 2) None (CreateNewServer None)))
     (incoming GET ''/items'' []) (0, 0)
     = (Responded (Sent \<lparr>status = 200, body = JArr [JNum 1, JNum 2]\<rparr>), (3, 3))
   \<and> snd (snd (handle_request literal
        (Start (BindNewGETRoute ''/items'' (counted tick) (Some 2) None (CreateNewServer None)))
        (incoming GET ''/items'' []) (0, 0))) \<noteq> 2"
  by (simp add: handle_request_def Start_def BindNewGETRoute_def CreateNewServer_def
      literal_def strip_prefix_def incoming_def exact_match_def tick_def counted_def truthy_def
      to_length_def Array_from_def fill_unfold SendResponseWithDelay_def)

text \<open>
  Claim C2, amended: for a GET route bound with \<^verbatim>\<open>maxResults = N\<close>, \<open>0 < N < 2\<^sup>3\<^sup>2\<close>, and
  a producer that does not throw, a request that reaches the route (the application
  hands it to the router, the layers bound before the route pass it on, and the route
  matches) invokes the producer exactly \<open>N + 1\<close> times, one after the other: the value of
  the first call is dropped, and the values of the \<open>N\<close> calls that follow are returned in
  the order of the calls, as a JSON array with status 200.
\<close>

theorem GET_maxResults_invocations:
  assumes "0 < N" and "N < 2 ^ 32" and "\<And>u. \<not> isl (fst (schema u))"
    and "router srv = router (BindNewGETRoute route (counted schema) (Some (int N)) delay this) @ rest"
    and "handed_to_router fw (server srv) req = Some req'"
    and "router_handle (route_matches fw) srv (router this) req' (w, n) = (NoRoute, (w, n))"
    and "route_matches fw GET route req'"
  shows "\<exists>eff. handle_request fw srv req (w, n)
                 = (Responded eff, (after_calls schema (Suc N) w, n + N + 1))
             \<and> written eff = \<lparr>status = 200, body = JArr (map (produced schema w) [1..<Suc N])\<rparr>"
proof -
  let ?eff = "SendResponseWithDelay srv (JArr (map (produced schema w) [1..<Suc N])) delay"
  have stack: "router srv = router this
      @ RouteLayer GET route (GETHandler (counted schema) (Some (int N)) delay) # rest"
    using assms(4) by (simp add: BindNewGETRoute_def)
  have "router_handle (route_matches fw) srv (router srv) req' (w, n)
          = (Responded ?eff, (after_calls schema (Suc N) w, n + N + 1))"
    unfolding stack router_handle_append[OF assms(6)]
    using assms(7) run_GETHandler_counted[OF assms(3) assms(1) assms(2)]
    by (simp del: upt_Suc after_calls.simps)
  then have "handle_request fw srv req (w, n)
          = (Responded ?eff, (after_calls schema (Suc N) w, n + N + 1))"
    by (rule handle_request_handed[OF assms(5)]) simp
  then show ?thesis
    by (simp add: written_SendResponseWithDelay del: upt_Suc after_calls.simps)
qed

theorem GET_maxResults_invocations_witness:
  "(0::nat) < 2 \<and> (2::nat) < 2 ^ 32 \<and> (\<forall>u. \<not> isl (fst (tick u))) \<and>
   (\<exists>eff. handle_request literal
             (Start (BindCrudRoutes ''users'' (counted tick) (Some (int 2)) None
                (SetRoutePrefix ''/api'' (CreateNewServer None))))
             (incoming GET ''/api/users'' []) (0, 0)
           = (Responded eff, (after_calls tick (Suc 2) 0, 0 + 2 + 1))
        \<and> written eff = \<lparr>status = 200, body = JArr (map (produced tick 0) [1..<Suc 2])\<rparr>)"
proof -
  let ?base = "SetRoutePrefix ''/api'' (CreateNewServer None) :: (nat \<times> nat) MockServer"
  let ?srv = "Start (BindCrudRoutes ''users'' (counted tick) (Some (int 2)) None ?base)"
  let ?rest = "[RouteLayer POST ''/users/create'' (PlainHandler (counted tick) None),
            RouteLayer PUT ''/users/update'' (PlainHandler (counted tick) None),
            RouteLayer DELETE ''/users/delete'' (PlainHandler (counted tick) None),
            RouteLayer PATCH ''/users/patch-update'' (PlainHandler (counted tick) None)]"
  let ?req = "incoming GET ''/api/users'' []"
  let ?req' = "incoming GET ''/users'' []"
  have pos: "(0::nat) < 2" and small: "(2::nat) < 2 ^ 32" by simp_all
  have stack: "router ?srv =
      router (BindNewGETRoute ''/users'' (counted tick) (Some (int 2)) None ?base) @ ?rest"
    by (simp add: Start_def BindCrudRoutes_def BindNewGETRoute_def BindNewPOSTRoute_def
        BindNewPUTRoute_def BindNewDELETERoute_def BindNewPATCHRoute_def)
  have handed: "handed_to_router literal (server ?srv) ?req = Some ?req'"
    by (simp add: Start_def BindCrudRoutes_def BindNewGETRoute_def BindNewPOSTRoute_def
        BindNewPUTRoute_def BindNewDELETERoute_def BindNewPATCHRoute_def SetRoutePrefix_def
        CreateNewServer_def literal_def strip_prefix_def incoming_def)
  have earlier: "router_handle (route_matches literal) ?srv (router ?base) ?req' (0, 0)
                   = (NoRoute, (0::nat, 0::nat))"
    by (simp add: SetRoutePrefix_def CreateNewServer_def)
  have m: "route_matches literal GET ''/users'' ?req'"
    by (simp add: literal_def exact_match_def incoming_def)
  show ?thesis
    using GET_maxResults_invocations[OF pos small tick_never_throws stack handed earlier m]
      pos small tick_never_throws by blast
qed

subsection \<open>C3: one call of the producer for each request\<close>

text \<open>
  Claim C3: for a route bound by \<^verbatim>\<open>BindNewGETRoute\<close> without \<^verbatim>\<open>maxResults\<close>, or by
  \<^verbatim>\<open>BindNewPOSTRoute\<close>, \<^verbatim>\<open>BindNewPUTRoute\<close>, \<^verbatim>\<open>BindNewDELETERoute\<close> or
  \<^verbatim>\<open>BindNewPATCHRoute\<close> (directly or, with later bindings after it, as in
  \<^verbatim>\<open>BindCrudRoutes\<close>), a request that reaches the route invokes the producer exactly
  once: the counter goes up by one, also when the producer throws, and the value produced
  is the body of the response, sent with status 200. The call of the binder itself
  leaves the counter where it was: the producer is not invoked at binding time.
\<close>

theorem schema_once_per_request:
  assumes "(bind, m) \<in> {(\<lambda>route f. BindNewGETRoute route f None, GET),
                         (BindNewPOSTRoute, POST), (BindNewPUTRoute, PUT),
                         (BindNewDELETERoute, DELETE), (BindNewPATCHRoute, PATCH)}"
    and "router srv = router (bind route (counted schema) delay this) @ rest"
    and "handed_to_router fw (server srv) req = Some req'"
    and "router_handle (route_matches fw) srv (router this) req' (w, n) = (NoRoute, (w, n))"
    and "route_matches fw m route req'"
  shows "snd (snd (handle_request fw srv req (w, n))) = Suc n
       \<and> (\<forall>v w'. schema w = (Inr v, w') \<longrightarrow>
            (\<exists>eff. handle_request fw srv req (w, n) = (Responded eff, (w', Suc n))
                \<and> written eff = \<lparr>status = 200, body = v\<rparr>))
       \<and> run_events fw [Call (bind route (counted schema) delay)] this (w, n)
            = ([], bind route (counted schema) delay this, (w, n))"
proof -
  obtain h where h: "h = GETHandler (counted schema) None delay \<or> h = PlainHandler (counted schema) delay"
    and stack: "router srv = router this @ RouteLayer m route h # rest"
    using assms(1,2)
    by (auto simp: BindNewGETRoute_def BindNewPOSTRoute_def BindNewPUTRoute_def
        BindNewDELETERoute_def BindNewPATCHRoute_def)
  obtain r w1 where sw: "schema w = (r, w1)" by (cases "schema w")
  have run: "run_handler srv h (w, n) =
      (case r of Inl e \<Rightarrow> Inl e | Inr v \<Rightarrow> Inr (SendResponseWithDelay srv v delay), (w1, Suc n))"
    using run_handler_single[OF h, of srv "(w, n)"] sw
    by (simp add: counted_def split: sum.splits)
  let ?out = "case r of Inl e \<Rightarrow> Threw e | Inr v \<Rightarrow> Responded (SendResponseWithDelay srv v delay)"
  have "router_handle (route_matches fw) srv (router srv) req' (w, n) = (?out, (w1, Suc n))"
    unfolding stack router_handle_append[OF assms(4)]
    using assms(5) run by (simp split: sum.splits)
  moreover have "?out \<noteq> NoRoute" by (simp split: sum.splits)
  ultimately have ans: "handle_request fw srv req (w, n) = (?out, (w1, Suc n))"
    by (rule handle_request_handed[OF assms(3)])
  show ?thesis
    using ans sw by (auto simp: written_SendResponseWithDelay)
qed

text \<open>
  All five binders at work on one server, mounted at \<^verbatim>\<open>/api\<close> behind a gate: each
  request reaches its route, makes the one call of the producer that the counter shows,
  and is answered with the value produced.
\<close>

theorem schema_once_per_request_witness:
  "(\<exists>eff. handle_request literal
        (Start (BindNewPATCHRoute ''/e'' (counted tick) None
          (BindNewDELETERoute ''/d'' (counted tick) None
            (BindNewPUTRoute ''/c'' (counted tick) None
              (BindNewPOSTRoute ''/b'' (counted tick) None
                (BindNewGETRoute ''/a'' (counted tick) None None
                  (SetRoutePrefix ''/api'' (CreateNewServer None))))))))
        (incoming GET ''/api/a'' []) (4, 0)
          = (Responded eff, (5, Suc 0))
        \<and> written eff = \<lparr>status = 200, body = JNum 4\<rparr>)
   \<and> (\<exists>eff. handle_request literal
        (Start (BindNewPATCHRoute ''/e'' (counted tick) None
          (BindNewDELETERoute ''/d'' (counted tick) None
            (BindNewPUTRoute ''/c'' (counted tick) None
              (BindNewPOSTRoute ''/b'' (counted tick) None
                (BindNewGETRoute ''/a'' (counted tick) None None
                  (SetRoutePrefix ''/api'' (CreateNewServer None))))))))
        (incoming POST ''/api/b'' []) (4, 0)
          = (Responded eff, (5, Suc 0))
        \<and> written eff = \<lparr>status = 200, body = JNum 4\<rparr>)
   \<and> (\<exists>eff. handle_request literal
        (Start (BindNewPATCHRoute ''/e'' (counted tick) None
          (BindNewDELETERoute ''/d'' (counted tick) None
            (BindNewPUTRoute ''/c'' (counted tick) None
              (BindNewPOSTRoute ''/b'' (counted tick) None
                (BindNewGETRoute ''/a'' (counted tick) None None
                  (SetRoutePrefix ''/api'' (CreateNewServer None))))))))
        (incoming PUT ''/api/c'' []) (4, 0)
          = (Responded eff, (5, Suc 0))
        \<and> written eff = \<lparr>status = 200, body = JNum 4\<rparr>)
   \<and> (\<exists>eff. handle_request literal
        (Start (BindNewPATCHRoute ''/e'' (counted tick) None
          (BindNewDELETERoute ''/d'' (counted tick) None
            (BindNewPUTRoute ''/c'' (counted tick) None
              (BindNewPOSTRoute ''/b'' (counted tick) None
                (BindNewGETRoute ''/a'' (counted tick) None None
                  (SetRoutePrefix ''/api'' (CreateNewServer None))))))))
        (incoming DELETE ''/api/d'' []) (4, 0)
          = (Responded eff, (5, Suc 0))
        \<and> written eff = \<lparr>status = 200, body = JNum 4\<rparr>)
   \<and> (\<exists>eff. handle_request literal
        (Start (BindNewPATCHRoute ''/e'' (counted tick) None
          (BindNewDELETERoute ''/d'' (counted tick) None
            (BindNewPUTRoute ''/c'' (counted tick) None
              (BindNewPOSTRoute ''/b'' (counted tick) None
                (BindNewGETRoute ''/a'' (counted tick) None None
                  (SetRoutePrefix ''/api'' (CreateNewServer None))))))))
        (incoming PATCH ''/api/e'' []) (4, 0)
          = (Responded eff, (5, Suc 0))
        \<and> written eff = \<lparr>status = 200, body = JNum 4\<rparr>)"
proof -
  let ?s0 = "SetRoutePrefix ''/api'' (CreateNewServer None) :: (nat \<times> nat) MockServer"
  let ?s1 = "BindNewGETRoute ''/a'' (counted tick) None None ?s0"
  let ?s2 = "BindNewPOSTRoute ''/b'' (counted tick) None ?s1"
  let ?s3 = "BindNewPUTRoute ''/c'' (counted tick) None ?s2"
  let ?s4 = "BindNewDELETERoute ''/d'' (counted tick) None ?s3"
  let ?s5 = "BindNewPATCHRoute ''/e'' (counted tick) None ?s4"
  let ?srv = "Start ?s5"
  let ?GET = "\<lambda>route f. BindNewGETRoute route f None
                :: int option \<Rightarrow> (nat \<times> nat) MockServer \<Rightarrow> (nat \<times> nat) MockServer"
  let ?B = "{(?GET, GET), (BindNewPOSTRoute, POST), (BindNewPUTRoute, PUT),
             (BindNewDELETERoute, DELETE), (BindNewPATCHRoute, PATCH)}"
  note defs = Start_def BindNewGETRoute_def BindNewPOSTRoute_def BindNewPUTRoute_def
    BindNewDELETERoute_def BindNewPATCHRoute_def SetRoutePrefix_def CreateNewServer_def
  note fwdefs = literal_def strip_prefix_def exact_match_def incoming_def
  have t: "tick 4 = (Inr (JNum 4), 5)" by (simp add: tick_def)
  have handed: "handed_to_router literal (server ?srv) (incoming m (''/api'' @ p) [])
                  = Some (incoming m p [])" for m p
    by (simp add: defs fwdefs)
  have a: "\<exists>eff. handle_request literal ?srv (incoming GET ''/api/a'' []) (4, 0)
              = (Responded eff, (5, Suc 0)) \<and> written eff = \<lparr>status = 200, body = JNum 4\<rparr>"
  proof -
    have b: "(?GET, GET) \<in> ?B" by simp
    have stack: "router ?srv = router (?GET ''/a'' (counted tick) None ?s0)
        @ [RouteLayer POST ''/b'' (PlainHandler (counted tick) None),
           RouteLayer PUT ''/c'' (PlainHandler (counted tick) None),
           RouteLayer DELETE ''/d'' (PlainHandler (counted tick) None),
           RouteLayer PATCH ''/e'' (PlainHandler (counted tick) None)]"
      by (simp add: defs)
    have earlier: "router_handle (route_matches literal) ?srv (router ?s0) (incoming GET ''/a'' []) (4, 0)
                     = (NoRoute, (4::nat, 0::nat))"
      by (simp add: defs fwdefs)
    have m: "route_matches literal GET ''/a'' (incoming GET ''/a'' [])" by (simp add: fwdefs)
    show ?thesis
      using schema_once_per_request[OF b stack handed[of GET "''/a''", simplified] earlier m] t
      by blast
  qed
  have b: "\<exists>eff. handle_request literal ?srv (incoming POST ''/api/b'' []) (4, 0)
              = (Responded eff, (5, Suc 0)) \<and> written eff = \<lparr>status = 200, body = JNum 4\<rparr>"
  proof -
    have b: "(BindNewPOSTRoute, POST) \<in> ?B" by simp
    have stack: "router ?srv = router (BindNewPOSTRoute ''/b'' (counted tick) None ?s1)
        @ [RouteLayer PUT ''/c'' (PlainHandler (counted tick) None),
           RouteLayer DELETE ''/d'' (PlainHandler (counted tick) None),
           RouteLayer PATCH ''/e'' (PlainHandler (counted tick) None)]"
      by (simp add: defs)
    have earlier: "router_handle (route_matches literal) ?srv (router ?s1) (incoming POST ''/b'' []) (4, 0)
                     = (NoRoute, (4::nat, 0::nat))"
      by (simp add: defs fwdefs)
    have m: "route_matches literal POST ''/b'' (incoming POST ''/b'' [])" by (simp add: fwdefs)
    show ?thesis
      using schema_once_per_request[OF b stack handed[of POST "''/b''", simplified] earlier m] t
      by blast
  qed
  have c: "\<exists>eff. handle_request literal ?srv (incoming PUT ''/api/c'' []) (4, 0)
              = (Responded eff, (5, Suc 0)) \<and> written eff = \<lparr>status = 200, body = JNum 4\<rparr>"
  proof -
    have b: "(BindNewPUTRoute, PUT) \<in> ?B" by simp
    have stack: "router ?srv = router (BindNewPUTRoute ''/c'' (counted tick) None ?s2)
        @ [RouteLayer DELETE ''/d'' (PlainHandler (counted tick) None),
           RouteLayer PATCH ''/e'' (PlainHandler (counted tick) None)]"
      by (simp add: defs)
    have earlier: "router_handle (route_matches literal) ?srv (router ?s2) (incoming PUT ''/c'' []) (4, 0)
                     = (NoRoute, (4::nat, 0::nat))"
      by (simp add: defs fwdefs)
    have m: "route_matches literal PUT ''/c'' (incoming PUT ''/c'' [])" by (simp add: fwdefs)
    show ?thesis
      using schema_once_per_request[OF b stack handed[of PUT "''/c''", simplified] earlier m] t
      by blast
  qed
  have d: "\<exists>eff. handle_request literal ?srv (incoming DELETE ''/api/d'' []) (4, 0)
              = (Responded eff, (5, Suc 0)) \<and> written eff = \<lparr>status = 200, body = JNum 4\<rparr>"
  proof -
    have b: "(BindNewDELETERoute, DELETE) \<in> ?B" by simp
    have stack: "router ?srv = router (BindNewDELETERoute ''/d'' (counted tick) None ?s3)
        @ [RouteLayer PATCH ''/e'' (PlainHandler (counted tick) None)]"
      by (simp add: defs)
    have earlier: "router_handle (route_matches literal) ?srv (router ?s3) (incoming DELETE ''/d'' []) (4, 0)
                     = (NoRoute, (4::nat, 0::nat))"
      by (simp add: defs fwdefs)
    have m: "route_matches literal DELETE ''/d'' (incoming DELETE ''/d'' [])" by (simp add: fwdefs)
    show ?thesis
      using schema_once_per_request[OF b stack handed[of DELETE "''/d''", simplified] earlier m] t
      by blast
  qed
  have e: "\<exists>eff. handle_request literal ?srv (incoming PATCH ''/api/e'' []) (4, 0)
              = (Responded eff, (5, Suc 0)) \<and> written eff = \<lparr>status = 200, body = JNum 4\<rparr>"
  proof -
    have b: "(BindNewPATCHRoute, PATCH) \<in> ?B" by simp
    have stack: "router ?srv = router (BindNewPATCHRoute ''/e'' (counted tick) None ?s4) @ []"
      by (simp add: defs)
    have earlier: "router_handle (route_matches literal) ?srv (router ?s4) (incoming PATCH ''/e'' []) (4, 0)
                     = (NoRoute, (4::nat, 0::nat))"
      by (simp add: defs fwdefs)
    have m: "route_matches literal PATCH ''/e'' (incoming PATCH ''/e'' [])" by (simp add: fwdefs)
    show ?thesis
      using schema_once_per_request[OF b stack handed[of PATCH "''/e''", simplified] earlier m] t
      by blast
  qed
  show ?thesis using a b c d e by (intro conjI)
qed

subsection \<open>C4 and C5: the gate\<close>

text \<open>
  Claim C4 as stated: once auth is enabled, every request with a missing or wrong header
  is answered with 401 and no producer runs. It fails for a route bound before
  \<^verbatim>\<open>EnableAuth\<close> is called: that route stands in front of the gate in the router's
  stack, and a request without any header is answered by its handler, with status 200
  and one call of the producer.
\<close>

theorem route_before_gate_counterexample:
  "handle_request literal
     (Start (EnableAuth ''secret'' None
        (BindNewGETRoute ''/open'' (counted tick) None None (CreateNewServer None))))
     (incoming GET ''/open'' []) (0, 0)
   = (Responded (Sent \<lparr>status = 200, body = JNum 0\<rparr>), (1, 1))
   \<and> handle_request literal
     (Start (EnableAuth ''secret'' None
        (BindNewGETRoute ''/open'' (counted tick) None None (CreateNewServer None))))
     (incoming GET ''/open'' []) (0, 0)
   \<noteq> (Responded (Sent \<lparr>status = 401, body = JObj [(''message'', JStr ''Unauthorized'')]\<rparr>),
       (0, 0))"
  by (simp add: handle_request_def Start_def BindNewGETRoute_def EnableAuth_def
      CreateNewServer_def literal_def strip_prefix_def incoming_def exact_match_def tick_def
      counted_def truthy_def SendResponseWithDelay_def)

text \<open>
  Claim C4, amended: when auth is enabled, every request that the application hands to
  the router (its path lies under the prefix at which the router is mounted, and the JSON
  parser accepted its body), that no route bound before the call of \<^verbatim>\<open>EnableAuth\<close>
  takes, and whose named header is missing or equals neither the token nor the token
  prefixed with \<^verbatim>\<open>"Bearer "\<close>, is answered with 401 and the body
  \<^verbatim>\<open>{"message":"Unauthorized"}\<close>, and the state of the world is left as it was: no
  producer is invoked for that request. (A request that the application does not hand to
  the router is answered by the framework, with 404 or 400.)
\<close>

theorem gate_rejects_before_routes:
  assumes "router srv = router (EnableAuth dummyToken headerKey this) @ rest"
    and "key = (case headerKey of None \<Rightarrow> ''authorization'' | Some k \<Rightarrow> k)"
    and "handed_to_router fw (server srv) (incoming m path hs) = Some req'"
    and "\<not> list_ex (takes (route_matches fw) req') (router this)"
    and "sent_header hs key \<noteq> Some dummyToken"
    and "sent_header hs key \<noteq> Some (''Bearer '' @ dummyToken)"
  shows "handle_request fw srv (incoming m path hs) w
           = (Responded (Sent \<lparr>status = 401, body = JObj [(''message'', JStr ''Unauthorized'')]\<rparr>), w)"
proof -
  have hdr: "headers req' = node_headers hs"
    using handed_to_router_headers[OF assms(3)] by (simp add: incoming_def)
  have lookup: "headers req' key \<noteq> Some dummyToken \<and> headers req' key \<noteq> Some (''Bearer '' @ dummyToken)"
  proof (cases "toLowerCase key = key")
    case True
    then show ?thesis using assms(5,6) by (simp add: hdr node_headers_sent)
  next
    case False
    then show ?thesis by (simp add: hdr node_headers_not_lower)
  qed
  have stack: "router srv = router this @ Gate key dummyToken # rest"
    using assms(1,2) by (simp add: EnableAuth_def header_key_def)
  have "\<not> list_ex (takes (route_matches fw) req') pre \<Longrightarrow>
        router_handle (route_matches fw) srv (pre @ Gate key dummyToken # rest) req' w
          = (Responded (Sent Unauthorized), w)" for pre
  proof (induction pre)
    case Nil
    then show ?case using lookup by (simp add: auth_gate_def)
  next
    case (Cons l pre)
    then show ?case
      by (cases l) (auto simp: auth_gate_def Unauthorized_def split: gate_result.splits)
  qed
  then have "router_handle (route_matches fw) srv (router srv) req' w
          = (Responded (Sent Unauthorized), w)"
    using assms(4) stack by simp
  then have "handle_request fw srv (incoming m path hs) w = (Responded (Sent Unauthorized), w)"
    by (rule handle_request_handed[OF assms(3)]) simp
  then show ?thesis by (simp add: Unauthorized_def)
qed

text \<open>
  A server mounted at \<^verbatim>\<open>/api\<close> with a route bound before the gate and five after it: a
  request for one of the later routes with the token in the wrong letter case is turned
  away, and the counter of the producer stays at 0.
\<close>

theorem gate_rejects_before_routes_witness:
  "handle_request literal
     (Start (BindCrudRoutes ''users'' (counted tick) None None
        (EnableAuth ''secret'' (Some ''x-api-key'')
          (BindNewGETRoute ''/health'' (counted tick) None None
            (SetRoutePrefix ''/api'' (CreateNewServer None))))))
     (incoming DELETE ''/api/users/delete'' [(''X-Api-Key'', ''SECRET'')]) (0, 0)
   = (Responded (Sent \<lparr>status = 401, body = JObj [(''message'', JStr ''Unauthorized'')]\<rparr>),
      (0, 0))"
proof -
  let ?base = "BindNewGETRoute ''/health'' (counted tick) None None
            (SetRoutePrefix ''/api'' (CreateNewServer None)) :: (nat \<times> nat) MockServer"
  let ?srv = "Start (BindCrudRoutes ''users'' (counted tick) None None
        (EnableAuth ''secret'' (Some ''x-api-key'') ?base))"
  let ?hs = "[(''X-Api-Key'', ''SECRET'')]"
  let ?rest = "[RouteLayer GET ''/users'' (GETHandler (counted tick) None None),
      RouteLayer POST ''/users/create'' (PlainHandler (counted tick) None),
      RouteLayer PUT ''/users/update'' (PlainHandler (counted tick) None),
      RouteLayer DELETE ''/users/delete'' (PlainHandler (counted tick) None),
      RouteLayer PATCH ''/users/patch-update'' (PlainHandler (counted tick) None)]"
  note defs = Start_def BindCrudRoutes_def BindNewGETRoute_def BindNewPOSTRoute_def
    BindNewPUTRoute_def BindNewDELETERoute_def BindNewPATCHRoute_def EnableAuth_def
    SetRoutePrefix_def CreateNewServer_def
  have lower: "toLowerCase ''X-Api-Key'' = ''x-api-key''" "toLowerCase ''x-api-key'' = ''x-api-key''"
    by code_simp+
  have stack: "router ?srv = router (EnableAuth ''secret'' (Some ''x-api-key'') ?base) @ ?rest"
    by (simp add: defs)
  have key: "''x-api-key'' = (case Some ''x-api-key'' of None \<Rightarrow> ''authorization'' | Some k \<Rightarrow> k)"
    by simp
  have handed: "handed_to_router literal (server ?srv) (incoming DELETE ''/api/users/delete'' ?hs)
                  = Some (incoming DELETE ''/users/delete'' ?hs)"
    by (simp add: defs literal_def strip_prefix_def incoming_def)
  have pre: "\<not> list_ex (takes (route_matches literal) (incoming DELETE ''/users/delete'' ?hs))
               (router ?base)"
    by (simp add: defs literal_def exact_match_def incoming_def)
  have h1: "sent_header ?hs ''x-api-key'' \<noteq> Some ''secret''"
    by (simp add: sent_header_def node_headers_def lower)
  have h2: "sent_header ?hs ''x-api-key'' \<noteq> Some (''Bearer '' @ ''secret'')"
    by (simp add: sent_header_def node_headers_def lower)
  show ?thesis
    using gate_rejects_before_routes[OF stack key handed pre h1 h2] .
qed

text \<open>
  Claim C5 as stated: a request passes the gate of \<^verbatim>\<open>EnableAuth(token, headerKey)\<close> if
  and only if the value of the named header equals the token or the token prefixed with
  \<^verbatim>\<open>"Bearer "\<close>. It fails for a header key with an upper-case letter: the gate looks
  \<^verbatim>\<open>headerKey\<close> up in \<^verbatim>\<open>req.headers\<close> as it is written, the names in that dictionary are
  in lower case, and so a request that carries the token in the header \<^verbatim>\<open>X-Api-Key\<close>
  is turned away by the gate of \<^verbatim>\<open>EnableAuth('secret', 'X-Api-Key')\<close>.
\<close>

theorem mixed_case_header_key_counterexample:
  "sent_header [(''X-Api-Key'', ''secret'')] ''X-Api-Key'' = Some ''secret''
   \<and> handle_request literal
       (Start (BindNewGETRoute ''/users'' tick None None
          (EnableAuth ''secret'' (Some ''X-Api-Key'') (CreateNewServer None))))
       (incoming GET ''/users'' [(''X-Api-Key'', ''secret'')]) 0
     = (Responded (Sent \<lparr>status = 401, body = JObj [(''message'', JStr ''Unauthorized'')]\<rparr>), 0)"
proof -
  have lower: "toLowerCase ''X-Api-Key'' = ''x-api-key''" by code_simp
  show ?thesis
    by (simp add: sent_header_def node_headers_def lower handle_request_def Start_def
        BindNewGETRoute_def EnableAuth_def header_key_def CreateNewServer_def literal_def
        strip_prefix_def incoming_def auth_gate_def Unauthorized_def)
qed

text \<open>
  Claim C5, amended: the gate of \<^verbatim>\<open>EnableAuth(token, headerKey)\<close> (the key is
  \<^verbatim>\<open>authorization\<close> when none is given) lets a request pass if and only if the key is
  written in lower case and the value of the header of that name equals the token or the
  token prefixed with \<^verbatim>\<open>"Bearer "\<close> (equality of strings, so the letter case of the
  value counts). For a server on which the gate is installed first and a request that the
  application hands to the router, a request that passes is answered as by the same
  server without the gate, that is by the layers bound after it; every other request is
  answered by the gate, with 401 and the body \<^verbatim>\<open>{ message: "Unauthorized" }\<close>.
\<close>

theorem auth_gate_passes_iff:
  assumes "router srv = router (EnableAuth dummyToken headerKey this) @ rest"
    and "router this = []"
    and "key = (case headerKey of None \<Rightarrow> ''authorization'' | Some k \<Rightarrow> k)"
    and "handed_to_router fw (server srv) (incoming m path hs) = Some req'"
  shows "(auth_gate key dummyToken (incoming m path hs) = Next
            \<longleftrightarrow> toLowerCase key = key
                \<and> (sent_header hs key = Some dummyToken
                    \<or> sent_header hs key = Some (''Bearer '' @ dummyToken)))
       \<and> handle_request fw srv (incoming m path hs) w
           = (if toLowerCase key = key
                 \<and> (sent_header hs key = Some dummyToken
                     \<or> sent_header hs key = Some (''Bearer '' @ dummyToken))
              then handle_request fw (srv\<lparr>router := rest\<rparr>) (incoming m path hs) w
              else (Responded
                      (Sent \<lparr>status = 401, body = JObj [(''message'', JStr ''Unauthorized'')]\<rparr>), w))"
proof -
  let ?req = "incoming m path hs"
  let ?ok = "toLowerCase key = key
      \<and> (sent_header hs key = Some dummyToken \<or> sent_header hs key = Some (''Bearer '' @ dummyToken))"
  have look: "(node_headers hs key = Some (''Bearer '' @ dummyToken) \<or> node_headers hs key = Some dummyToken)
                \<longleftrightarrow> ?ok"
  proof (cases "toLowerCase key = key")
    case True
    then show ?thesis by (auto simp: node_headers_sent)
  next
    case False
    then show ?thesis by (simp add: node_headers_not_lower)
  qed
  have gate: "auth_gate key dummyToken (req\<lparr>req_path := p\<rparr>) = (if ?ok then Next else Reply Unauthorized)"
    if "headers req = node_headers hs" for req :: request and p
    using that look by (simp add: auth_gate_def)
  have gate0: "auth_gate key dummyToken ?req = (if ?ok then Next else Reply Unauthorized)"
    using look by (simp add: auth_gate_def incoming_def)
  have stack: "router srv = Gate key dummyToken # rest"
    using assms(1,2,3) by (simp add: EnableAuth_def header_key_def)
  have answer: "handle_request fw srv ?req w
      = (if ?ok then handle_request fw (srv\<lparr>router := rest\<rparr>) ?req w
         else (Responded (Sent Unauthorized), w))"
  proof (cases ?ok)
    case True
    have "router_handle (route_matches fw) srv (router srv) (?req\<lparr>req_path := p\<rparr>) u
        = router_handle (route_matches fw) (srv\<lparr>router := rest\<rparr>) (router (srv\<lparr>router := rest\<rparr>))
            (?req\<lparr>req_path := p\<rparr>) u" for p u
      using True gate[of ?req p] router_handle_cong[of srv "srv\<lparr>router := rest\<rparr>"]
      by (simp add: stack incoming_def)
    then have "app_handle fw srv (server srv) ?req w
                 = app_handle fw (srv\<lparr>router := rest\<rparr>) (server srv) ?req w"
      by (rule app_handle_cong)
    then show ?thesis using True by (simp add: handle_request_def)
  next
    case False
    have "headers req' = node_headers hs"
      using handed_to_router_headers[OF assms(4)] by (simp add: incoming_def)
    then have "auth_gate key dummyToken req' = Reply Unauthorized"
      using False look by (simp add: auth_gate_def)
    then have "router_handle (route_matches fw) srv (router srv) req' w
                 = (Responded (Sent Unauthorized), w)"
      by (simp add: stack)
    then have "handle_request fw srv ?req w = (Responded (Sent Unauthorized), w)"
      by (rule handle_request_handed[OF assms(4)]) simp
    then show ?thesis by (simp only: if_not_P[OF False])
  qed
  have passes: "auth_gate key dummyToken ?req = Next \<longleftrightarrow> ?ok"
    unfolding gate0 by (cases ?ok) simp_all
  show ?thesis
    using passes answer[unfolded Unauthorized_def] by (rule conjI)
qed

text \<open>
  A gate on the header \<^verbatim>\<open>x-api-key\<close>: the request that carries the prefixed token (under
  the name as a client may write it) is answered by the route, the request that carries
  the token in another letter case by the gate.
\<close>

theorem auth_gate_passes_iff_witness:
  "handle_request literal
     (Start (BindNewGETRoute ''/users'' tick None None
        (EnableAuth ''secret'' (Some ''x-api-key'')
          (SetRoutePrefix ''/api'' (CreateNewServer None)))))
     (incoming GET ''/api/users'' [(''X-Api-Key'', ''Bearer secret'')]) 0
     = (Responded (Sent \<lparr>status = 200, body = JNum 0\<rparr>), 1)
   \<and> handle_request literal
     (Start (BindNewGETRoute ''/users'' tick None None
        (EnableAuth ''secret'' (Some ''x-api-key'')
          (SetRoutePrefix ''/api'' (CreateNewServer None)))))
     (incoming GET ''/api/users'' [(''X-Api-Key'', ''Secret'')]) 0
     = (Responded (Sent \<lparr>status = 401, body = JObj [(''message'', JStr ''Unauthorized'')]\<rparr>), 0)"
proof -
  let ?base = "SetRoutePrefix ''/api'' (CreateNewServer None) :: nat MockServer"
  let ?srv = "Start (BindNewGETRoute ''/users'' tick None None
        (EnableAuth ''secret'' (Some ''x-api-key'') ?base))"
  let ?rest = "[RouteLayer GET ''/users'' (GETHandler tick None None)]"
  note defs = Start_def BindNewGETRoute_def EnableAuth_def SetRoutePrefix_def CreateNewServer_def
  note fwdefs = literal_def strip_prefix_def exact_match_def incoming_def
  have lower: "toLowerCase ''X-Api-Key'' = ''x-api-key''" "toLowerCase ''x-api-key'' = ''x-api-key''"
    by code_simp+
  have stack: "router ?srv = router (EnableAuth ''secret'' (Some ''x-api-key'') ?base) @ ?rest"
    by (simp add: defs)
  have first: "router ?base = []" by (simp add: defs)
  have key: "''x-api-key'' = (case Some ''x-api-key'' of None \<Rightarrow> ''authorization'' | Some k \<Rightarrow> k)"
    by simp
  have handed: "handed_to_router literal (server ?srv) (incoming GET ''/api/users'' hs)
                  = Some (incoming GET ''/users'' hs)" for hs
    by (simp add: defs fwdefs)
  have without: "handle_request literal (?srv\<lparr>router := ?rest\<rparr>) (incoming GET ''/api/users'' hs) 0
                   = (Responded (Sent \<lparr>status = 200, body = JNum 0\<rparr>), 1)" for hs
    by (simp add: handle_request_def defs fwdefs tick_def truthy_def SendResponseWithDelay_def)
  have good: "sent_header [(''X-Api-Key'', ''Bearer secret'')] ''x-api-key'' = Some (''Bearer '' @ ''secret'')"
    by (simp add: sent_header_def node_headers_def lower)
  have bad: "sent_header [(''X-Api-Key'', ''Secret'')] ''x-api-key'' = Some ''Secret''"
    by (simp add: sent_header_def node_headers_def lower)
  have "handle_request literal ?srv (incoming GET ''/api/users'' [(''X-Api-Key'', ''Bearer secret'')]) 0
          = (Responded (Sent \<lparr>status = 200, body = JNum 0\<rparr>), 1)"
    using auth_gate_passes_iff[OF stack first key handed, THEN conjunct2,
        of "[(''X-Api-Key'', ''Bearer secret'')]" 0] good without
    by (simp add: lower)
  moreover have "handle_request literal ?srv (incoming GET ''/api/users'' [(''X-Api-Key'', ''Secret'')]) 0
          = (Responded (Sent \<lparr>status = 401, body = JObj [(''message'', JStr ''Unauthorized'')]\<rparr>), 0)"
    using auth_gate_passes_iff[OF stack first key handed, THEN conjunct2,
        of "[(''X-Api-Key'', ''Secret'')]" 0] bad
    by (simp add: lower)
  ultimately show ?thesis by simp
qed

subsection \<open>C6: the five routes of \<^verbatim>\<open>BindCrudRoutes\<close>\<close>

text \<open>
  Claim C6: \<^verbatim>\<open>BindCrudRoutes(m, s, maxResults, delay)\<close> adds exactly five route layers
  at the end of the router's stack, all with the producer \<open>s\<close> and the delay: GET \<open>/m\<close>
  (with \<^verbatim>\<open>maxResults\<close>), POST \<open>/m/create\<close>, PUT \<open>/m/update\<close>, DELETE \<open>/m/delete\<close> and
  PATCH \<open>/m/patch-update\<close>; it changes nothing else of the server.
\<close>

theorem BindCrudRoutes_five_routes:
  "BindCrudRoutes moduleName schema maxResults delay this =
     this\<lparr>router := router this @
       [RouteLayer GET (''/'' @ moduleName) (GETHandler schema maxResults delay),
        RouteLayer POST (''/'' @ moduleName @ ''/create'') (PlainHandler schema delay),
        RouteLayer PUT (''/'' @ moduleName @ ''/update'') (PlainHandler schema delay),
        RouteLayer DELETE (''/'' @ moduleName @ ''/delete'') (PlainHandler schema delay),
        RouteLayer PATCH (''/'' @ moduleName @ ''/patch-update'') (PlainHandler schema delay)]\<rparr>
   \<and> length (router (BindCrudRoutes moduleName schema maxResults delay this))
       = length (router this) + 5"
  by (simp add: BindCrudRoutes_def BindNewGETRoute_def BindNewPOSTRoute_def
      BindNewPUTRoute_def BindNewDELETERoute_def BindNewPATCHRoute_def)

subsection \<open>C7: handlers answer with status 200\<close>

text \<open>
  Claim C7: whatever the producer, \<^verbatim>\<open>maxResults\<close>, the delays and the state of the
  server, a response written by a handler that a binder registered (at once or from the
  timer's callback) has status 200 and a JSON value as its body. When the producer throws,
  the handler writes nothing.
\<close>

theorem handler_responses_are_200:
  "fst (run_handler this h w) = Inr eff \<Longrightarrow> status (written eff) = 200"
  by (cases h) (auto simp: written_SendResponseWithDelay split: prod.splits sum.splits if_splits)

theorem handler_responses_are_200_witness:
  "fst (run_handler (SetDelay 20 (CreateNewServer None)) (GETHandler tick (Some 2) None) 0)
     = Inr (SetTimeout None \<lparr>status = 200, body = JArr [JNum 1, JNum 2]\<rparr>)
   \<and> status (written (SetTimeout None \<lparr>status = 200, body = JArr [JNum 1, JNum 2]\<rparr>)) = 200"
proof -
  have run: "fst (run_handler (SetDelay 20 (CreateNewServer None)) (GETHandler tick (Some 2) None) 0)
     = Inr (SetTimeout None \<lparr>status = 200, body = JArr [JNum 1, JNum 2]\<rparr>)"
    by (simp add: SetDelay_def CreateNewServer_def tick_def truthy_def to_length_def
        Array_from_def fill_unfold SendResponseWithDelay_def)
  show ?thesis
    using handler_responses_are_200[OF run] run by blast
qed

subsection \<open>C8: the length of the array\<close>

text \<open>
  Claim C8 as stated: for every positive \<^verbatim>\<open>maxResults = N\<close>, every request to the GET
  route returns a JSON array of length \<open>N\<close>. It fails for \<open>N = 2\<^sup>3\<^sup>2\<close>, which is above the
  greatest length of an array: \<^verbatim>\<open>Array.from\<close> throws a \<^verbatim>\<open>RangeError\<close> after the first
  call of the producer, and the handler writes no response.
\<close>

theorem GET_maxResults_length_counterexample:
  "(4294967296 :: int) = 2 ^ 32
   \<and> handle_request literal
       (Start (BindNewGETRoute ''/items'' (counted tick) (Some 4294967296) None (CreateNewServer None)))
       (incoming GET ''/items'' []) (0, 0)
     = (Threw RangeError, (1, 1))"
  by (simp add: handle_request_def Start_def BindNewGETRoute_def CreateNewServer_def
      literal_def strip_prefix_def incoming_def exact_match_def tick_def counted_def truthy_def
      to_length_def Array_from_def)

text \<open>
  Claim C8, amended: for a GET route bound with \<^verbatim>\<open>maxResults = N\<close>, \<open>0 < N < 2\<^sup>3\<^sup>2\<close> (by
  \<^verbatim>\<open>BindNewGETRoute\<close>, directly or as the first route of \<^verbatim>\<open>BindCrudRoutes\<close>), and a
  producer that does not throw, every request that reaches the route is answered, with
  status 200 and a JSON array of exactly \<open>N\<close> elements.
\<close>

theorem GET_maxResults_length:
  assumes "0 < N" and "N < 2 ^ 32" and "\<And>u. \<not> isl (fst (schema u))"
    and "router srv = router (BindNewGETRoute route schema (Some (int N)) delay this) @ rest"
    and "handed_to_router fw (server srv) req = Some req'"
    and "router_handle (route_matches fw) srv (router this) req' w = (NoRoute, w)"
    and "route_matches fw GET route req'"
  shows "\<exists>eff w' vs. handle_request fw srv req w = (Responded eff, w')
             \<and> written eff = \<lparr>status = 200, body = JArr vs\<rparr> \<and> length vs = N"
proof -
  let ?vs = "map (produced schema w) [1..<Suc N]"
  let ?eff = "SendResponseWithDelay srv (JArr ?vs) delay"
  have t: "truthy (Some (int N))" using assms(1) by (simp add: truthy_def)
  have len: "to_length (Some (int N)) = N" using assms(2) by (rule to_length_small)
  have bound: "to_length (Some (int N)) < 2 ^ 32" using assms(2) len by simp
  have stack: "router srv = router this
      @ RouteLayer GET route (GETHandler schema (Some (int N)) delay) # rest"
    using assms(4) by (simp add: BindNewGETRoute_def)
  have run: "run_handler srv (GETHandler schema (Some (int N)) delay) w
               = (Inr ?eff, after_calls schema (Suc N) w)"
    using run_GETHandler_list[where f = schema and maxResults = "Some (int N)",
        OF assms(3) t bound, of srv delay w]
    unfolding len .
  have "router_handle (route_matches fw) srv (router srv) req' w
          = (Responded ?eff, after_calls schema (Suc N) w)"
    unfolding stack router_handle_append[OF assms(6)]
    using assms(7) run by (simp del: upt_Suc after_calls.simps)
  then have "handle_request fw srv req w = (Responded ?eff, after_calls schema (Suc N) w)"
    by (rule handle_request_handed[OF assms(5)]) simp
  moreover have "written ?eff = \<lparr>status = 200, body = JArr ?vs\<rparr>"
    by (rule written_SendResponseWithDelay)
  moreover have "length ?vs = N" by simp
  ultimately show ?thesis by blast
qed

theorem GET_maxResults_length_witness:
  "(0::nat) < 3 \<and> (3::nat) < 2 ^ 32 \<and> (\<forall>u. \<not> isl (fst (tick u))) \<and>
   (\<exists>eff w' vs. handle_request literal
             (Start (BindCrudRoutes ''items'' tick (Some (int 3)) (Some 50)
                (SetRoutePrefix ''/v1'' (CreateNewServer None))))
             (incoming GET ''/v1/items'' []) 7
           = (Responded eff, w')
        \<and> written eff = \<lparr>status = 200, body = JArr vs\<rparr> \<and> length vs = 3)"
proof -
  let ?base = "SetRoutePrefix ''/v1'' (CreateNewServer None) :: nat MockServer"
  let ?srv = "Start (BindCrudRoutes ''items'' tick (Some (int 3)) (Some 50) ?base)"
  let ?rest = "[RouteLayer POST ''/items/create'' (PlainHandler tick (Some 50)),
            RouteLayer PUT ''/items/update'' (PlainHandler tick (Some 50)),
            RouteLayer DELETE ''/items/delete'' (PlainHandler tick (Some 50)),
            RouteLayer PATCH ''/items/patch-update'' (PlainHandler tick (Some 50))]"
  let ?req = "incoming GET ''/v1/items'' []"
  let ?req' = "incoming GET ''/items'' []"
  note defs = Start_def BindCrudRoutes_def BindNewGETRoute_def BindNewPOSTRoute_def
    BindNewPUTRoute_def BindNewDELETERoute_def BindNewPATCHRoute_def SetRoutePrefix_def
    CreateNewServer_def
  have pos: "(0::nat) < 3" and small: "(3::nat) < 2 ^ 32" by simp_all
  have stack: "router ?srv =
      router (BindNewGETRoute ''/items'' tick (Some (int 3)) (Some 50) ?base) @ ?rest"
    by (simp add: defs)
  have handed: "handed_to_router literal (server ?srv) ?req = Some ?req'"
    by (simp add: defs literal_def strip_prefix_def incoming_def)
  have earlier: "router_handle (route_matches literal) ?srv (router ?base) ?req' 7 = (NoRoute, 7)"
    by (simp add: defs)
  have m: "route_matches literal GET ''/items'' ?req'"
    by (simp add: literal_def exact_match_def incoming_def)
  show ?thesis
    using GET_maxResults_length[OF pos small tick_never_throws stack handed earlier m]
      pos small tick_never_throws by blast
qed

subsection \<open>C9: the startup log\<close>

text \<open>
  Claim C9: for a server on which \<^verbatim>\<open>Start\<close> was called once, the log written once the
  listener is bound is the line with the URL, the group's title, then one line for each
  binding of the router and for nothing else, in the order of registration (see
  \<open>bindings_binders\<close>), and an empty line. A binding's line is its method in upper
  case, padded with spaces to 6 characters (see \<open>method_column\<close>), the separator, and
  the prefix joined with the pattern.
\<close>

theorem startup_log_lists_bindings:
  assumes "mounts this = 1"
  shows "on_listening join port this =
           [Log (serverName this @ '' running at http://localhost:'' @ string_of_nat (port_or_default port)),
            Group (''Registered Routes By '' @ serverName this @ '':'')]
           @ map (\<lambda>(m, route).
                    Log (padEnd 6 CHR '' '' (toUpperCase (method_name m)) @ '' -  ''
                           @ joinPath join [p_routePrefix this, route]))
                 (bindings (router this))
           @ [Log [], GroupEnd]"
  using assms log_middleware_mounts[of join this "server this"]
  by (simp add: on_listening_def logRoutes_def mounts_def log_handlers_bindings route_line_def)

text \<open>
  The server of the package's own example; \<open>concat\<close> stands for \<^verbatim>\<open>path.join\<close>, with
  which it agrees on these arguments.
\<close>

theorem startup_log_lists_bindings_witness:
  "on_listening concat (Some 4000)
     (Start (BindNewPOSTRoute ''/submit'' tick None
        (BindNewGETRoute ''/custom'' tick None None
          (BindCrudRoutes ''users'' tick (Some 10) None
            (SetRoutePrefix ''/api''
              (EnableAuth ''mysecrettoken'' None (CreateNewServer (Some ''MyMockServer''))))))))
   = [Log ''MyMockServer running at http://localhost:4000'',
      Group ''Registered Routes By MyMockServer:'',
      Log ''GET    -  /api/users'',
      Log ''POST   -  /api/users/create'',
      Log ''PUT    -  /api/users/update'',
      Log ''DELETE -  /api/users/delete'',
      Log ''PATCH  -  /api/users/patch-update'',
      Log ''GET    -  /api/custom'',
      Log ''POST   -  /api/submit'',
      Log [], GroupEnd]"
proof -
  let ?srv = "Start (BindNewPOSTRoute ''/submit'' tick None
        (BindNewGETRoute ''/custom'' tick None None
          (BindCrudRoutes ''users'' tick (Some 10) None
            (SetRoutePrefix ''/api''
              (EnableAuth ''mysecrettoken'' None (CreateNewServer (Some ''MyMockServer'')))))))
        :: nat MockServer"
  have once: "mounts ?srv = 1"
    by (simp add: mounts_builder)
  have port: "string_of_nat (port_or_default (Some 4000)) = ''4000''" by code_simp
  have names: "toUpperCase ''get'' = ''GET''" "toUpperCase ''post'' = ''POST''"
    "toUpperCase ''put'' = ''PUT''" "toUpperCase ''delete'' = ''DELETE''"
    "toUpperCase ''patch'' = ''PATCH''"
    by code_simp+
  show ?thesis
    unfolding startup_log_lists_bindings[OF once, of concat "Some 4000"] port
    by (simp add: names padEnd_def joinPath_def numeral_2_eq_2 numeral_3_eq_3 Start_def
        BindCrudRoutes_def BindNewGETRoute_def BindNewPOSTRoute_def BindNewPUTRoute_def
        BindNewDELETERoute_def BindNewPATCHRoute_def EnableAuth_def SetRoutePrefix_def
        CreateNewServer_def name_or_default_def)
qed

subsection \<open>C10: the server's name\<close>

text \<open>
  Claim C10: \<^verbatim>\<open>CreateNewServer\<close> called without a name, or with the empty string, gives
  a server named \<^verbatim>\<open>Mock Server\<close>; a non-empty name is kept as it is.
\<close>

theorem CreateNewServer_serverName:
  "serverName (CreateNewServer None :: 's MockServer) = ''Mock Server'' \<and>
   serverName (CreateNewServer (Some []) :: 's MockServer) = ''Mock Server'' \<and>
   (n \<noteq> [] \<longrightarrow> serverName (CreateNewServer (Some n) :: 's MockServer) = n)"
  by (simp add: CreateNewServer_def name_or_default_def)

theorem CreateNewServer_serverName_witness:
  "''My API'' \<noteq> [] \<and> serverName (CreateNewServer (Some ''My API'') :: unit MockServer) = ''My API''"
  using CreateNewServer_serverName[where 's = unit and n = "''My API''"] by simp

end
